theory Spec2Isabelle
  imports Main
begin

section \<open>Diagnostics\<close>

text \<open>
  A rule failure as the walkers create it: \<^verbatim>\<open>createFailure(start, width, message)\<close>.
\<close>

record failure =
  failureStart :: nat
  failureWidth :: nat
  message :: string

definition createFailure :: "nat \<Rightarrow> nat \<Rightarrow> string \<Rightarrow> failure" where
  "createFailure s wd msg = \<lparr>failureStart = s, failureWidth = wd, message = msg\<rparr>"

text \<open>
  Modelled from the spec: \<^verbatim>\<open>addFailure\<close> of the host's walker base class (the host linter
  is not among the sources): the reporting protocol yields "a positioned, de-duplicated
  diagnostic": the failure is pushed on the walker's list unless an equal one (same
  position, width and message) is already recorded.
\<close>

definition addFailure :: "failure \<Rightarrow> failure list \<Rightarrow> failure list" where
  "addFailure f fs = (if f \<in> set fs then fs else fs @ [f])"

section \<open>Syntax kinds\<close>

text \<open>
  The members of \<^verbatim>\<open>SyntaxKind.current()\<close> that the two rules name; every other kind of
  the front end is \<open>OtherKind\<close> with its number.
\<close>

datatype syntax_kind =
    ExtendsKeyword
  | ImplementsKeyword
  | StaticKeyword
  | Constructor
  | NumericLiteral
  | StringLiteral
  | TrueKeyword
  | FalseKeyword
  | NullKeyword
  | FunctionExpression
  | ArrowFunction
  | ArrayLiteralExpression
  | FirstTemplateToken
  | TypeAssertionExpression
  | PropertyAccessExpression
  | Identifier
  | ObjectLiteralExpression
  | PropertyAssignment
  | CallExpression
  | NewExpression
  | BinaryExpression
  | PrefixUnaryExpression
  | PostfixUnaryExpression
  | VariableStatement
  | VariableDeclaration
  | ExpressionStatement
  | FunctionDeclaration
  | ClassDeclaration
  | OtherKind nat

section \<open>The no-stateless-class rule (noStatelessClassRule.ts)\<close>

subsection \<open>Class declarations\<close>

datatype heritage_clause = HeritageClause (token: syntax_kind)

text \<open>
  A class member: its syntax kind (\<^verbatim>\<open>classElement.kind\<close>) and the kinds of its modifiers
  (absent when the member has none).
\<close>

record class_element =
  elementKind :: syntax_kind
  modifiers :: "syntax_kind list option"

text \<open>
  A class declaration node: \<^verbatim>\<open>node.name\<close> (absent for an anonymous class),
  \<^verbatim>\<open>node.heritageClauses\<close> (absent when the class has none), \<^verbatim>\<open>node.members\<close>, and the
  results of \<^verbatim>\<open>node.getStart()\<close> and \<^verbatim>\<open>node.getWidth()\<close>.
\<close>

record class_declaration =
  name :: "string option"
  heritageClauses :: "heritage_clause list option"
  members :: "class_element list"
  getStart :: nat
  getWidth :: nat

subsection \<open>Helpers of the utility modules\<close>

text \<open>
  Modelled from the spec: \<^verbatim>\<open>Utils.exists\<close> (utils/Utils.ts is not among the sources): true
  iff the list is present and some entry satisfies the predicate.
\<close>

definition Utils_exists :: "'a list option \<Rightarrow> ('a \<Rightarrow> bool) \<Rightarrow> bool" where
  "Utils_exists list predicate =
     (case list of None \<Rightarrow> False | Some xs \<Rightarrow> list_ex predicate xs)"

text \<open>
  Modelled from the spec: \<^verbatim>\<open>AstUtils.isStatic\<close> (utils/AstUtils.ts is not among the
  sources): the member is "declared static", that is, carries the static modifier.
\<close>

definition isStatic :: "class_element \<Rightarrow> bool" where
  "isStatic classElement =
     (case modifiers classElement of None \<Rightarrow> False | Some ms \<Rightarrow> StaticKeyword \<in> set ms)"

subsection \<open>The walker\<close>

definition FAILURE_STRING :: string where
  "FAILURE_STRING =
     ''A stateless class was found. This indicates a failure in the object model: ''"

definition isClassStateful :: "class_declaration \<Rightarrow> bool" where
  "isClassStateful node =
     (if Utils_exists (heritageClauses node) (\<lambda>clause. token clause = ExtendsKeyword)
      then True
      else if length (members node) = 0 then False
      else Utils_exists (Some (members node))
             (\<lambda>classElement.
                if elementKind classElement = Constructor then False
                else if isStatic classElement then False
                else True))"

text \<open>
  \<^verbatim>\<open>visitClassDeclaration\<close>: the inherited \<^verbatim>\<open>super.visitClassDeclaration\<close> (the generic
  traversal of the node's children, from the walker base class) is the parameter
  \<open>super\<close>.
\<close>

definition visitClassDeclaration ::
  "(class_declaration \<Rightarrow> failure list \<Rightarrow> failure list) \<Rightarrow>
   class_declaration \<Rightarrow> failure list \<Rightarrow> failure list" where
  "visitClassDeclaration super node failures =
     (let failures1 =
        (if \<not> isClassStateful node then
           (let className = (case name node of None \<Rightarrow> ''<unknown>'' | Some n \<Rightarrow> n)
            in addFailure
                 (createFailure (getStart node) (getWidth node) (FAILURE_STRING @ className))
                 failures)
         else failures)
      in super node failures1)"

section \<open>The mocha-no-side-effect-code rule\<close>

subsection \<open>Syntax tree nodes\<close>

text \<open>
  What every node answers to \<^verbatim>\<open>getText()\<close>, \<^verbatim>\<open>getStart()\<close> and \<^verbatim>\<open>getWidth()\<close>. The
  tree comes from the front end, so the text of a node is data of the node, not
  something computed from its children.
\<close>

datatype span = Span (spanText: string) (spanStart: nat) (spanWidth: nat)

text \<open>
  One constructor for each node kind the rule inspects, with the properties the rule
  reads, and \<open>OtherNode\<close> for every other kind, with its children in source order.
  Type nodes and binding names are left out: they hold no expression the rule could
  reach.
\<close>

datatype node =
    NumericLiteralNode (nodeSpan: span)
  | StringLiteralNode (nodeSpan: span)
  | TrueKeywordNode (nodeSpan: span)
  | FalseKeywordNode (nodeSpan: span)
  | NullKeywordNode (nodeSpan: span)
  | FirstTemplateTokenNode (nodeSpan: span)
  | IdentifierNode (nodeSpan: span) (identifierText: string)
  | FunctionExpressionNode (nodeSpan: span) (body: "node list")
  | ArrowFunctionNode (nodeSpan: span) (body: "node list")
  | ArrayLiteralExpressionNode (nodeSpan: span) (elements: "node list")
  | TypeAssertionNode (nodeSpan: span) (expression: node)
  | PropertyAccessExpressionNode (nodeSpan: span) (expression: node) (propertyName: string)
  | ObjectLiteralExpressionNode (nodeSpan: span) (properties: "node list")
  | PropertyAssignmentNode (nodeSpan: span) (propertyKey: node) (initializer: "node option")
  | CallExpressionNode (nodeSpan: span) (expression: node) (arguments: "node list")
  | NewExpressionNode (nodeSpan: span) (expression: node) (arguments: "node list")
  | BinaryExpressionNode (nodeSpan: span) (left: node) (right: node)
  | PrefixUnaryExpressionNode (nodeSpan: span) (operand: node)
  | PostfixUnaryExpressionNode (nodeSpan: span) (operand: node)
  | VariableStatementNode (nodeSpan: span) (declarations: "node list")
  | VariableDeclarationNode (nodeSpan: span) (initializer: "node option")
  | ExpressionStatementNode (nodeSpan: span) (expression: node)
  | FunctionDeclarationNode (nodeSpan: span) (body: "node list")
  | ClassDeclarationNode (nodeSpan: span) (body: "node list")
  | OtherNode nat (nodeSpan: span) (otherChildren: "node list")

datatype source_file = SourceFile (statements: "node list")

fun kind :: "node \<Rightarrow> syntax_kind" where
  "kind (NumericLiteralNode s) = NumericLiteral"
| "kind (StringLiteralNode s) = StringLiteral"
| "kind (TrueKeywordNode s) = TrueKeyword"
| "kind (FalseKeywordNode s) = FalseKeyword"
| "kind (NullKeywordNode s) = NullKeyword"
| "kind (FirstTemplateTokenNode s) = FirstTemplateToken"
| "kind (IdentifierNode s t) = Identifier"
| "kind (FunctionExpressionNode s b) = FunctionExpression"
| "kind (ArrowFunctionNode s b) = ArrowFunction"
| "kind (ArrayLiteralExpressionNode s es) = ArrayLiteralExpression"
| "kind (TypeAssertionNode s e) = TypeAssertionExpression"
| "kind (PropertyAccessExpressionNode s e n) = PropertyAccessExpression"
| "kind (ObjectLiteralExpressionNode s ps) = ObjectLiteralExpression"
| "kind (PropertyAssignmentNode s k i) = PropertyAssignment"
| "kind (CallExpressionNode s e as) = CallExpression"
| "kind (NewExpressionNode s e as) = NewExpression"
| "kind (BinaryExpressionNode s l r) = BinaryExpression"
| "kind (PrefixUnaryExpressionNode s e) = PrefixUnaryExpression"
| "kind (PostfixUnaryExpressionNode s e) = PostfixUnaryExpression"
| "kind (VariableStatementNode s ds) = VariableStatement"
| "kind (VariableDeclarationNode s i) = VariableDeclaration"
| "kind (ExpressionStatementNode s e) = ExpressionStatement"
| "kind (FunctionDeclarationNode s b) = FunctionDeclaration"
| "kind (ClassDeclarationNode s b) = ClassDeclaration"
| "kind (OtherNode k s cs) = OtherKind k"

definition getText :: "node \<Rightarrow> string" where
  "getText n = spanText (nodeSpan n)"

definition nodeStart :: "node \<Rightarrow> nat" where
  "nodeStart n = spanStart (nodeSpan n)"

definition nodeWidth :: "node \<Rightarrow> nat" where
  "nodeWidth n = spanWidth (nodeSpan n)"

text \<open>
  Modelled from the spec: the children of a node "in source order", as the generic
  traversal of the front end visits them.
\<close>

fun children :: "node \<Rightarrow> node list" where
  "children (FunctionExpressionNode s b) = b"
| "children (ArrowFunctionNode s b) = b"
| "children (ArrayLiteralExpressionNode s es) = es"
| "children (TypeAssertionNode s e) = [e]"
| "children (PropertyAccessExpressionNode s e n) = [e]"
| "children (ObjectLiteralExpressionNode s ps) = ps"
| "children (PropertyAssignmentNode s k i) = k # (case i of None \<Rightarrow> [] | Some e \<Rightarrow> [e])"
| "children (CallExpressionNode s e as) = e # as"
| "children (NewExpressionNode s e as) = e # as"
| "children (BinaryExpressionNode s l r) = [l, r]"
| "children (PrefixUnaryExpressionNode s e) = [e]"
| "children (PostfixUnaryExpressionNode s e) = [e]"
| "children (VariableStatementNode s ds) = ds"
| "children (VariableDeclarationNode s i) = (case i of None \<Rightarrow> [] | Some e \<Rightarrow> [e])"
| "children (ExpressionStatementNode s e) = [e]"
| "children (FunctionDeclarationNode s b) = b"
| "children (ClassDeclarationNode s b) = b"
| "children (OtherNode k s cs) = cs"
| "children _ = []"

subsection \<open>Helpers of the utility modules\<close>

text \<open>
  Modelled from the spec: \<^verbatim>\<open>AstUtils.isConstant\<close> (utils/AstUtils.ts is not among the
  sources): "literal constants (numbers, strings, booleans, null/undefined)", decided on
  the node kind. The name \<^verbatim>\<open>undefined\<close> is an identifier and is covered by the
  identifier case of the classifier.
\<close>

definition isConstant :: "node \<Rightarrow> bool" where
  "isConstant expr =
     (kind expr = NumericLiteral \<or> kind expr = StringLiteral
      \<or> kind expr = TrueKeyword \<or> kind expr = FalseKeyword
      \<or> kind expr = NullKeyword)"

text \<open>
  Modelled from the spec: \<^verbatim>\<open>AstUtils.isConstantExpression\<close> (utils/AstUtils.ts is not among
  the sources): the "fallback structural constant check (e.g., purely literal
  binary/unary combinations)".
\<close>

fun isConstantExpression :: "node \<Rightarrow> bool" where
  "isConstantExpression (BinaryExpressionNode s l r) =
     (isConstantExpression l \<and> isConstantExpression r)"
| "isConstantExpression (PrefixUnaryExpressionNode s e) = isConstantExpression e"
| "isConstantExpression (PostfixUnaryExpressionNode s e) = isConstantExpression e"
| "isConstantExpression n = isConstant n"

text \<open>
  Modelled from the spec: \<^verbatim>\<open>AstUtils.getFunctionName\<close> (utils/AstUtils.ts is not among the
  sources): the "callee name" of a call or \<^verbatim>\<open>new\<close> expression: the identifier called, or
  the member name when the callee is a property access; undefined (\<open>None\<close>) otherwise.
\<close>

definition getFunctionName :: "node \<Rightarrow> string option" where
  "getFunctionName node =
     (case expression node of
        IdentifierNode s t \<Rightarrow> Some t
      | PropertyAccessExpressionNode s e n \<Rightarrow> Some n
      | _ \<Rightarrow> None)"

text \<open>
  Modelled from the spec: \<^verbatim>\<open>AstUtils.getFunctionTarget\<close> (utils/AstUtils.ts is not among
  the sources): the source text of the object a method is called on, when the callee is
  a property access; null (\<open>None\<close>) otherwise.
\<close>

definition getFunctionTarget :: "node \<Rightarrow> string option" where
  "getFunctionTarget node =
     (case expression node of
        PropertyAccessExpressionNode s e n \<Rightarrow> Some (getText e)
      | _ \<Rightarrow> None)"

text \<open>
  Modelled from the spec: \<^verbatim>\<open>Utils.trimTo\<close> (utils/Utils.ts is not among the sources): the
  message fragment is cut to a fixed maximum length, keeping its prefix.
\<close>

definition trimTo :: "string \<Rightarrow> nat \<Rightarrow> string" where
  "trimTo source maxLength = take maxLength source"

text \<open>
  Modelled from the spec: \<^verbatim>\<open>MochaUtils.isStatementDescribeCall\<close> and
  \<^verbatim>\<open>MochaUtils.isMochaTest\<close> (utils/MochaUtils.ts is not among the sources): a statement
  that is a call of the grouping construct \<^verbatim>\<open>describe\<close>, and "a recognized test-suite
  file", one with such a statement at its top level.
\<close>

definition isStatementDescribeCall :: "node \<Rightarrow> bool" where
  "isStatementDescribeCall statement =
     (kind statement = ExpressionStatement
      \<and> kind (expression statement) = CallExpression
      \<and> getText (expression (expression statement)) = ''describe'')"

definition isMochaTest :: "source_file \<Rightarrow> bool" where
  "isMochaTest node = Utils_exists (Some (statements node)) isStatementDescribeCall"

subsection \<open>The walker's state and options\<close>

text \<open>
  A compiled regular expression is its \<^verbatim>\<open>test\<close> function (the rule builds it without
  flags, so \<^verbatim>\<open>test\<close> has no state). The fields of \<^verbatim>\<open>MochaNoSideEffectCodeRuleWalker\<close>:
  \<^verbatim>\<open>isInDescribe\<close>, \<^verbatim>\<open>ignoreRegex\<close> (absent until an option sets it) and the failures
  added so far.
\<close>

type_synonym regexp = "string \<Rightarrow> bool"

record walker =
  isInDescribe :: bool
  ignoreRegex :: "regexp option"
  failures :: "failure list"

text \<open>The rule's own \<^verbatim>\<open>FAILURE_STRING\<close>.\<close>

definition FAILURE_STRING_mocha :: string where
  "FAILURE_STRING_mocha =
     ''Mocha test contains dangerous variable initialization. Move to before()/beforeEach(): ''"

subsection \<open>The classifier\<close>

text \<open>
  \<^verbatim>\<open>validateExpression(initializer, parentNode)\<close>: the checks in the order of the source;
  a \<^verbatim>\<open>return\<close> leaves the walker as it is, the last line adds a failure anchored at
  the parent node. The termination proof shows that each recursive call is on a node
  strictly smaller than the initializer.
\<close>

function validateExpression :: "node option \<Rightarrow> node \<Rightarrow> walker \<Rightarrow> walker" where
  "validateExpression ini parentNode w =
     (case ini of
        None \<Rightarrow> w
      | Some i \<Rightarrow>
          if isConstant i then w
          else if kind i = FunctionExpression \<or> kind i = ArrowFunction then w
          else if kind i = ArrayLiteralExpression then
            fold (\<lambda>expr. validateExpression (Some expr) parentNode) (elements i) w
          else if kind i = FirstTemplateToken then w
          else if kind i = TypeAssertionExpression then
            validateExpression (Some (expression i)) parentNode w
          else if kind i = PropertyAccessExpression then w
          else if kind i = Identifier then w
          else if kind i = ObjectLiteralExpression then
            fold (\<lambda>element w'.
                    if kind element = PropertyAssignment
                    then validateExpression (initializer element) parentNode w'
                    else w')
                 (properties i) w
          else if getText i = ''moment()'' then w
          else if kind i = CallExpression \<and> getFunctionTarget i = Some ''moment()'' then w
          else if kind i = NewExpression \<and> getFunctionName i = Some ''Date'' then w
          else if (case ignoreRegex w of None \<Rightarrow> False | Some r \<Rightarrow> r (getText i)) then w
          else if isConstantExpression i then w
          else w\<lparr>failures :=
                   addFailure
                     (createFailure (nodeStart parentNode) (nodeWidth parentNode)
                        (FAILURE_STRING_mocha @ trimTo (getText parentNode) 30))
                     (failures w)\<rparr>)"
  by pat_completeness auto
termination
proof (relation "measure (\<lambda>(ini, p, w). case ini of None \<Rightarrow> 0 | Some n \<Rightarrow> size n)", goal_cases)
  case 1
  show ?case by simp
next
  case (2 ini parentNode w i expr)
  then show ?case 
    by (cases i) (auto simp: less_Suc_eq_le intro: size_list_estimation')
next
  case (3 ini parentNode w i)
  then show ?case by (cases i) auto
next
  case (4 ini parentNode w i element w')
  then show ?case 
  proof (cases "initializer element")
    case None
    then show ?thesis using 4 by (cases i) auto
  next
    case (Some x)
    from 4 obtain s ps where i: "i = ObjectLiteralExpressionNode s ps"
      by (cases i) auto
    from 4 Some obtain s' k where el: "element = PropertyAssignmentNode s' k (Some x)"
      by (cases element) auto
    from 4 i have "element \<in> set ps" by simp
    moreover have "size x < size element" using el by simp
    ultimately have "size x < size_list size ps" by (rule size_list_estimation)
    then show ?thesis using 4 Some i by simp
  qed
qed


subsection \<open>The traversal\<close>

text \<open>
  Modelled from the spec: the dispatch on the node kind and the generic traversal of the
  walker base class (utils/ErrorTolerantWalker.ts and the host's syntax walker are not
  among the sources): a kind with a handler goes to the handler, and "if no handler is
  defined for a kind, children are visited with default recursive behavior".
  \<open>visitNode\<close> is that dispatch with this rule's handlers: variable declarations are
  validated inside a grouping call and not entered, function and class declarations are
  not entered, call expressions go to \<^verbatim>\<open>visitCallExpression\<close>, and every other kind is
  traversed child by child (\<^verbatim>\<open>super.visitCallExpression\<close> is that generic traversal as
  well). No handler of this rule throws, so the base class's containment of exceptions
  has nothing to catch.
\<close>

definition visitVariableDeclaration :: "node \<Rightarrow> walker \<Rightarrow> walker" where
  "visitVariableDeclaration node w =
     (if isInDescribe w = True then validateExpression (initializer node) node w else w)"

function visitNode :: "node \<Rightarrow> walker \<Rightarrow> walker"
  and visitCallExpression :: "node \<Rightarrow> walker \<Rightarrow> walker" where
  "visitNode node w =
     (if kind node = VariableDeclaration then visitVariableDeclaration node w
      else if kind node = FunctionDeclaration then w
      else if kind node = ClassDeclaration then w
      else if kind node = CallExpression then visitCallExpression node w
      else fold visitNode (children node) w)"
| "visitCallExpression node w =
     (let functionName = getFunctionName node in
      if functionName = Some ''describe'' \<or> getText (expression node) = ''describe.skip''
      then
        (let nestedSubscribe = isInDescribe w;
             w1 = w\<lparr>isInDescribe := True\<rparr>;
             w2 = fold visitNode (children node) w1
         in if nestedSubscribe = False then w2\<lparr>isInDescribe := False\<rparr> else w2)
      else if functionName = Some ''it''
              \<or> functionName = Some ''before'' \<or> functionName = Some ''beforeEach''
              \<or> functionName = Some ''after'' \<or> functionName = Some ''afterEach''
      then w
      else if isInDescribe w then validateExpression (Some node) node w
      else w)"
  by pat_completeness auto
termination
proof (relation "measures [\<lambda>x. case x of Inl (n, w) \<Rightarrow> size n | Inr (n, w) \<Rightarrow> size n,
                           \<lambda>x. case x of Inl (n, w) \<Rightarrow> 1 | Inr (n, w) \<Rightarrow> 0]", goal_cases)
  case 1
  show ?case by simp
next
  case (2 node w)
  show ?case by simp
next
  case (3 node w c w')
  have est: "\<And>x xs. x \<in> set xs \<Longrightarrow> size (x::node) \<le> size_list size xs"
    by (erule size_list_estimation') simp
  have "size c < size node"
    using 3 by (cases node) (auto dest!: est split: option.splits)
  then show ?case by simp
next
  case (4 node w fn nested w1 c w')
  have est: "\<And>x xs. x \<in> set xs \<Longrightarrow> size (x::node) \<le> size_list size xs"
    by (erule size_list_estimation') simp
  have "size c < size node"
    using 4 by (cases node) (auto dest!: est split: option.splits)
  then show ?case by simp
qed

definition visitSourceFile :: "source_file \<Rightarrow> walker \<Rightarrow> walker" where
  "visitSourceFile node w =
     (if isMochaTest node then
        fold (\<lambda>statement w0.
                let w1 =
                  (if kind statement = VariableStatement then
                     fold (\<lambda>declaration. validateExpression (initializer declaration) declaration)
                          (declarations statement) w0
                   else w0)
                in if isStatementDescribeCall statement
                   then visitCallExpression (expression statement) w1
                   else w1)
             (statements node) w
      else w)"

subsection \<open>Options and the rule's entry point\<close>

text \<open>
  An entry of the option list: \<^verbatim>\<open>null\<close> (whose \<^verbatim>\<open>typeof\<close> is \<^verbatim>\<open>'object'\<close>, so that reading
  its \<^verbatim>\<open>ignore\<close> field throws), a scalar, or an object with its \<^verbatim>\<open>ignore\<close> field
  (absent or a pattern string). \<^verbatim>\<open>new RegExp\<close> belongs to the language runtime and is
  the parameter \<open>compile\<close>: \<open>None\<close> when the pattern does not compile, which throws.
\<close>

datatype option_value =
    OptNull
  | OptScalar
  | OptObject (ignore: "string option")

datatype error = SyntaxError string | TypeError

fun parseOptions ::
  "(string \<Rightarrow> regexp option) \<Rightarrow> option_value list \<Rightarrow> walker \<Rightarrow> error + walker" where
  "parseOptions compile [] w = Inr w"
| "parseOptions compile (opt # opts) w =
     (case opt of
        OptScalar \<Rightarrow> parseOptions compile opts w
      | OptNull \<Rightarrow> Inl TypeError
      | OptObject ig \<Rightarrow>
          (case ig of
             None \<Rightarrow> parseOptions compile opts w
           | Some pattern \<Rightarrow>
               (case compile pattern of
                  None \<Rightarrow> Inl (SyntaxError pattern)
                | Some r \<Rightarrow> parseOptions compile opts (w\<lparr>ignoreRegex := Some r\<rparr>))))"

definition MochaNoSideEffectCodeRuleWalker ::
  "(string \<Rightarrow> regexp option) \<Rightarrow> option_value list \<Rightarrow> error + walker" where
  "MochaNoSideEffectCodeRuleWalker compile options =
     parseOptions compile options \<lparr>isInDescribe = False, ignoreRegex = None, failures = []\<rparr>"

text \<open>
  \<^verbatim>\<open>Rule.apply\<close>: construct the walker (which parses the options), walk the source file,
  return the failures.
\<close>

definition apply_rule ::
  "(string \<Rightarrow> regexp option) \<Rightarrow> option_value list \<Rightarrow> source_file \<Rightarrow> error + failure list" where
  "apply_rule compile options sourceFile =
     (case MochaNoSideEffectCodeRuleWalker compile options of
        Inl e \<Rightarrow> Inl e
      | Inr walker \<Rightarrow> Inr (failures (visitSourceFile sourceFile walker)))"

section \<open>Derived notions and sample inputs\<close>

subsection \<open>The no-stateless-class rule\<close>

text \<open>The failure that \<^verbatim>\<open>visitClassDeclaration\<close> creates for a class it reports.\<close>

definition classFailure :: "class_declaration \<Rightarrow> failure" where
  "classFailure node =
     createFailure (getStart node) (getWidth node)
       (FAILURE_STRING @ (case name node of None \<Rightarrow> ''<unknown>'' | Some n \<Rightarrow> n))"

text \<open>
  Sample inputs. \<open>noNestedClasses\<close> is the inherited traversal for a class whose
  members hold no further class declaration: it adds nothing.
\<close>

definition noNestedClasses :: "class_declaration \<Rightarrow> failure list \<Rightarrow> failure list" where
  "noNestedClasses node fs = fs"

definition emptyClass :: class_declaration where
  "emptyClass = \<lparr>name = Some ''Empty'', heritageClauses = None, members = [],
                  getStart = 0, getWidth = 14\<rparr>"

definition staticMethod :: class_element where
  "staticMethod = \<lparr>elementKind = OtherKind 0, modifiers = Some [StaticKeyword]\<rparr>"

definition instanceMethod :: class_element where
  "instanceMethod = \<lparr>elementKind = OtherKind 0, modifiers = None\<rparr>"

definition constructorElement :: class_element where
  "constructorElement = \<lparr>elementKind = Constructor, modifiers = None\<rparr>"

definition implementingClass :: class_declaration where
  "implementingClass = \<lparr>name = Some ''Impl'', heritageClauses = Some [HeritageClause ImplementsKeyword],
                  members = [staticMethod], getStart = 3, getWidth = 50\<rparr>"

definition statelessClass :: class_declaration where
  "statelessClass = \<lparr>name = Some ''Helper'', heritageClauses = None,
                  members = [constructorElement, staticMethod], getStart = 7, getWidth = 80\<rparr>"

definition anonymousClass :: class_declaration where
  "anonymousClass = \<lparr>name = None, heritageClauses = None,
                  members = [staticMethod], getStart = 15, getWidth = 40\<rparr>"

definition extendingClass :: class_declaration where
  "extendingClass = \<lparr>name = Some ''Child'',
                  heritageClauses = Some [HeritageClause ImplementsKeyword, HeritageClause ExtendsKeyword],
                  members = [staticMethod], getStart = 3, getWidth = 50\<rparr>"


subsection \<open>The mocha-no-side-effect-code rule\<close>

text \<open>
  \<open>isSafe\<close> is the classifier's verdict: validating the expression adds no failure.
  \<open>reportsOnly F g\<close> says that \<open>g\<close> either leaves every walker as it is or reports
  the failure \<open>F\<close>, and which of the two does not depend on the failures recorded so
  far.
\<close>

definition isSafe :: "walker \<Rightarrow> node \<Rightarrow> node \<Rightarrow> bool" where
  "isSafe w parentNode e = (failures (validateExpression (Some e) parentNode w) = failures w)"

definition reportsOnly :: "failure \<Rightarrow> (walker \<Rightarrow> walker) \<Rightarrow> bool" where
  "reportsOnly F g =
     (\<forall>w. g w = (if failures (g (w\<lparr>failures := []\<rparr>)) = [] then w
                 else w\<lparr>failures := addFailure F (failures w)\<rparr>))"

text \<open>The failure that \<^verbatim>\<open>validateExpression\<close> creates, anchored at the parent node.\<close>

definition mochaFailure :: "node \<Rightarrow> failure" where
  "mochaFailure parentNode =
     createFailure (nodeStart parentNode) (nodeWidth parentNode)
       (FAILURE_STRING_mocha @ trimTo (getText parentNode) 30)"

text \<open>
  The expressions on which the body of \<^verbatim>\<open>validateExpression\<close> calls itself, for an
  initializer \<open>i\<close> that is present: the elements of an array literal, the operand of a
  type assertion, the initializers of the property assignments of an object literal.
\<close>

definition recursiveCalls :: "node \<Rightarrow> node list" where
  "recursiveCalls i =
     (if kind i = ArrayLiteralExpression then elements i
      else if kind i = TypeAssertionExpression then [expression i]
      else if kind i = ObjectLiteralExpression then
        concat (map (\<lambda>element.
                       if kind element = PropertyAssignment
                       then (case initializer element of None \<Rightarrow> [] | Some v \<Rightarrow> [v])
                       else [])
                    (properties i))
      else [])"

text \<open>Sample walkers, trees, ignore pattern and pattern compiler.\<close>

definition describeWalker :: walker where
  "describeWalker = \<lparr>isInDescribe = True, ignoreRegex = None, failures = []\<rparr>"

definition numberFive :: node where
  "numberFive = NumericLiteralNode (Span ''5'' 12 1)"

definition someFunctionCall :: node where
  "someFunctionCall =
     CallExpressionNode (Span ''someFunctionCall()'' 15 18)
       (IdentifierNode (Span ''someFunctionCall'' 15 16) ''someFunctionCall'') []"

definition safeArray :: node where
  "safeArray = ArrayLiteralExpressionNode (Span ''[5, 5]'' 11 6) [numberFive, numberFive]"

definition unsafeArray :: node where
  "unsafeArray =
     ArrayLiteralExpressionNode (Span ''[5, someFunctionCall()]'' 11 23)
       [numberFive, someFunctionCall]"

definition unsafeObject :: node where
  "unsafeObject =
     ObjectLiteralExpressionNode (Span ''{a: 5, b: someFunctionCall()}'' 4 29)
       [PropertyAssignmentNode (Span ''a: 5'' 5 4) (IdentifierNode (Span ''a'' 5 1) ''a'')
          (Some numberFive),
        PropertyAssignmentNode (Span ''b: someFunctionCall()'' 11 21)
          (IdentifierNode (Span ''b'' 11 1) ''b'') (Some someFunctionCall)]"

definition declarationOf :: "node \<Rightarrow> node" where
  "declarationOf e = VariableDeclarationNode (Span ''x = ...'' 7 30) (Some e)"

definition startWalker :: walker where
  "startWalker = \<lparr>isInDescribe = False, ignoreRegex = None, failures = []\<rparr>"

definition callOf :: "string \<Rightarrow> node list \<Rightarrow> node" where
  "callOf callee args =
     CallExpressionNode (Span (callee @ ''(...)'') 0 (length callee + 5))
       (IdentifierNode (Span callee 0 (length callee)) callee) args"

definition functionOf :: "node list \<Rightarrow> node" where
  "functionOf stmts = FunctionExpressionNode (Span ''function () {...}'' 0 18) stmts"

definition statementOf :: "node \<Rightarrow> node" where
  "statementOf e = ExpressionStatementNode (nodeSpan e) e"

definition unsafeStatement :: node where
  "unsafeStatement =
     VariableStatementNode (Span ''var x = someFunctionCall();'' 7 27)
       [VariableDeclarationNode (Span ''x = someFunctionCall()'' 11 22) (Some someFunctionCall)]"

definition hookCall :: node where
  "hookCall = callOf ''beforeEach'' [functionOf [unsafeStatement]]"

definition describeWithHook :: node where
  "describeWithHook = callOf ''describe'' [functionOf [statementOf hookCall]]"

definition nestedDescribe :: node where
  "nestedDescribe =
     callOf ''describe''
       [functionOf [statementOf (callOf ''describe'' [functionOf []]), unsafeStatement]]"







definition sampleCompile :: "string \<Rightarrow> regexp option" where
  "sampleCompile pattern = (if pattern = ''('' then None else Some (\<lambda>s. s = pattern))"

section \<open>Properties of the no-stateless-class rule\<close>

lemma visitClassDeclaration_eq:
  "visitClassDeclaration super node fs =
     super node (if isClassStateful node then fs else addFailure (classFailure node) fs)"
  by (simp add: visitClassDeclaration_def classFailure_def Let_def)

lemma addFailure_new: "f \<notin> set fs \<Longrightarrow> addFailure f fs = fs @ [f]"
  by (simp add: addFailure_def)

lemma addFailure_Nil: "addFailure f [] = [f]"
  by (simp add: addFailure_def)


lemma isClassStateful_iff:
  "isClassStateful node \<longleftrightarrow>
     (\<exists>clauses. heritageClauses node = Some clauses
        \<and> (\<exists>clause \<in> set clauses. token clause = ExtendsKeyword))
     \<or> (\<exists>m \<in> set (members node). elementKind m \<noteq> Constructor \<and> \<not> isStatic m)"
  by (auto simp: isClassStateful_def Utils_exists_def list_ex_iff split: option.splits)

text \<open>
  C1, as stated (a class that declares zero members is never reported), fails: the empty
  class \<open>emptyClass\<close>, which has no heritage clause, gets a diagnostic.
\<close>

theorem empty_class_is_reported:
  "members emptyClass = [] \<and>
   visitClassDeclaration noNestedClasses emptyClass [] =
     [\<lparr>failureStart = 0, failureWidth = 14,
       message = ''A stateless class was found. This indicates a failure in the object model: Empty''\<rparr>]"
  by (simp add: visitClassDeclaration_eq isClassStateful_iff emptyClass_def noNestedClasses_def
      classFailure_def createFailure_def FAILURE_STRING_def addFailure_Nil)

text \<open>
  C1 (amended): for a class declaration that declares zero members, the rule reports
  exactly one diagnostic for the class, unless the class has an \<^verbatim>\<open>extends\<close> heritage
  clause, in which case it reports none for it. Reporting is \<^verbatim>\<open>addFailure\<close>, which
  appends the diagnostic unless an equal one is already recorded; the walker visits a
  class node once, so none is.
\<close>

theorem empty_class_reported_unless_extends:
  assumes "members node = []"
  shows "visitClassDeclaration super node fs =
           super node
             (if (\<exists>clauses. heritageClauses node = Some clauses
                    \<and> (\<exists>clause \<in> set clauses. token clause = ExtendsKeyword))
              then fs
              else addFailure (classFailure node) fs)
         \<and> (classFailure node \<notin> set fs \<longrightarrow>
              visitClassDeclaration super node fs =
                super node
                  (if (\<exists>clauses. heritageClauses node = Some clauses
                         \<and> (\<exists>clause \<in> set clauses. token clause = ExtendsKeyword))
                   then fs
                   else fs @ [classFailure node]))"
  using assms by (auto simp: visitClassDeclaration_eq isClassStateful_iff addFailure_new)

theorem empty_class_reported_unless_extends_witness:
  "members emptyClass = [] \<and>
   visitClassDeclaration noNestedClasses emptyClass [] = [classFailure emptyClass]"
  using empty_class_reported_unless_extends [of emptyClass noNestedClasses "[]"]
  by (simp add: emptyClass_def noNestedClasses_def addFailure_Nil)

text \<open>
  C2: for a class declaration with no heritage clause and at least one member, the rule
  reports the class if and only if every member is a constructor or is declared static;
  and whatever the other members are, a class with a member that is neither is not
  reported. Reporting is \<^verbatim>\<open>addFailure\<close>, which appends the diagnostic unless an equal
  one is already recorded.
\<close>

theorem stateless_iff_all_members_static_or_constructor:
  assumes "heritageClauses node = None \<or> heritageClauses node = Some []"
    and "members node \<noteq> []"
  shows "visitClassDeclaration super node fs =
           super node
             (if (\<forall>m \<in> set (members node). elementKind m = Constructor \<or> isStatic m)
              then addFailure (classFailure node) fs else fs)
         \<and> (classFailure node \<notin> set fs \<longrightarrow>
              visitClassDeclaration super node fs =
                super node
                  (if (\<forall>m \<in> set (members node). elementKind m = Constructor \<or> isStatic m)
                   then fs @ [classFailure node] else fs))
         \<and> (elementKind m \<noteq> Constructor \<and> \<not> isStatic m \<longrightarrow>
              visitClassDeclaration super (node\<lparr>members := before @ m # after\<rparr>) fs =
                super (node\<lparr>members := before @ m # after\<rparr>) fs)"
  using assms by (auto simp: visitClassDeclaration_eq isClassStateful_iff addFailure_new)

theorem stateless_iff_all_members_static_or_constructor_witness:
  "(heritageClauses statelessClass = None \<or> heritageClauses statelessClass = Some [])
   \<and> members statelessClass \<noteq> []
   \<and> visitClassDeclaration noNestedClasses statelessClass [] = [classFailure statelessClass]
   \<and> elementKind instanceMethod \<noteq> Constructor \<and> \<not> isStatic instanceMethod
   \<and> visitClassDeclaration noNestedClasses
         (statelessClass\<lparr>members := [constructorElement, staticMethod] @ instanceMethod # []\<rparr>) [] = []"
  using stateless_iff_all_members_static_or_constructor
    [of statelessClass noNestedClasses "[]" instanceMethod "[constructorElement, staticMethod]" "[]"]
  by (simp add: statelessClass_def noNestedClasses_def instanceMethod_def staticMethod_def
      constructorElement_def isStatic_def addFailure_Nil)

text \<open>
  C3, as stated (any heritage clause, \<^verbatim>\<open>extends\<close> or \<^verbatim>\<open>implements\<close>, exempts the class),
  fails: \<open>implementingClass\<close> has an \<^verbatim>\<open>implements\<close> clause and one static member, and it
  gets a diagnostic.
\<close>

theorem implements_only_class_is_reported:
  "heritageClauses implementingClass = Some [HeritageClause ImplementsKeyword] \<and>
   visitClassDeclaration noNestedClasses implementingClass [] =
     [\<lparr>failureStart = 3, failureWidth = 50,
       message = ''A stateless class was found. This indicates a failure in the object model: Impl''\<rparr>]"
  by (simp add: visitClassDeclaration_eq isClassStateful_iff implementingClass_def
      noNestedClasses_def classFailure_def createFailure_def FAILURE_STRING_def
      staticMethod_def isStatic_def addFailure_Nil)

text \<open>
  C3 (amended): for a class declaration with an \<^verbatim>\<open>extends\<close> heritage clause, the rule
  reports no diagnostic for the class, whatever its members are.
\<close>

theorem extends_class_never_reported:
  assumes "heritageClauses node = Some clauses"
    and "HeritageClause ExtendsKeyword \<in> set clauses"
  shows "visitClassDeclaration super node fs = super node fs"
proof -
  have "\<exists>clause \<in> set clauses. token clause = ExtendsKeyword"
    using assms(2) by force
  then have "isClassStateful node"
    using assms(1) by (simp add: isClassStateful_iff)
  then show ?thesis by (simp add: visitClassDeclaration_eq)
qed

theorem extends_class_never_reported_witness:
  "heritageClauses extendingClass =
     Some [HeritageClause ImplementsKeyword, HeritageClause ExtendsKeyword]
   \<and> HeritageClause ExtendsKeyword
        \<in> set [HeritageClause ImplementsKeyword, HeritageClause ExtendsKeyword]
   \<and> visitClassDeclaration noNestedClasses extendingClass [] = []"
  using extends_class_never_reported
    [of extendingClass "[HeritageClause ImplementsKeyword, HeritageClause ExtendsKeyword]"
      noNestedClasses "[]"]
  by (simp add: extendingClass_def noNestedClasses_def)

text \<open>
  C10: when the rule reports a class declaration, the diagnostic starts at the class
  node's start offset and has the class node's width, and its message is the failure
  prefix followed by \<^verbatim>\<open><unknown>\<close> when the class has no name and by the name when it
  has one. It is handed to \<^verbatim>\<open>addFailure\<close>, which appends it unless an equal one is
  already recorded.
\<close>

theorem reported_class_message_and_anchor:
  assumes "\<not> isClassStateful node"
  shows "visitClassDeclaration super node fs =
           super node
             (addFailure
                \<lparr>failureStart = getStart node, failureWidth = getWidth node,
                  message = FAILURE_STRING
                    @ (case name node of None \<Rightarrow> ''<unknown>'' | Some n \<Rightarrow> n)\<rparr> fs)
         \<and> (\<lparr>failureStart = getStart node, failureWidth = getWidth node,
               message = FAILURE_STRING
                 @ (case name node of None \<Rightarrow> ''<unknown>'' | Some n \<Rightarrow> n)\<rparr> \<notin> set fs \<longrightarrow>
              visitClassDeclaration super node fs =
                super node
                  (fs @ [\<lparr>failureStart = getStart node, failureWidth = getWidth node,
                           message = FAILURE_STRING
                             @ (case name node of None \<Rightarrow> ''<unknown>'' | Some n \<Rightarrow> n)\<rparr>]))"
  using assms
  by (simp add: visitClassDeclaration_eq classFailure_def createFailure_def addFailure_new)

theorem reported_class_message_and_anchor_witness:
  "\<not> isClassStateful anonymousClass \<and>
   visitClassDeclaration noNestedClasses anonymousClass [] =
     [\<lparr>failureStart = 15, failureWidth = 40,
       message = ''A stateless class was found. This indicates a failure in the object model: <unknown>''\<rparr>]"
proof -
  have h: "\<not> isClassStateful anonymousClass"
    by (simp add: isClassStateful_iff anonymousClass_def staticMethod_def isStatic_def)
  from reported_class_message_and_anchor [OF h, of noNestedClasses "[]"]
  show ?thesis using h
    by (simp add: anonymousClass_def noNestedClasses_def FAILURE_STRING_def addFailure_Nil)
qed

section \<open>Properties of the mocha-no-side-effect-code rule\<close>

declare validateExpression.simps [simp del]

declare visitNode.simps [simp del] visitCallExpression.simps [simp del]

lemma addFailure_idem: "addFailure f (addFailure f fs) = addFailure f fs"
  by (simp add: addFailure_def)

lemma addFailure_same_iff: "addFailure f fs = fs \<longleftrightarrow> f \<in> set fs"
  by (simp add: addFailure_def)

lemma reportsOnlyD:
  "reportsOnly F g \<Longrightarrow>
   g w = (if failures (g (w\<lparr>failures := []\<rparr>)) = [] then w
          else w\<lparr>failures := addFailure F (failures w)\<rparr>)"
  unfolding reportsOnly_def by blast

lemma reportsOnly_id: "reportsOnly F (\<lambda>w. w)"
  by (simp add: reportsOnly_def)

lemma reportsOnly_fold_eq:
  assumes "\<forall>x \<in> set xs. reportsOnly F (g x)"
  shows "fold g xs w =
           (if \<forall>x \<in> set xs. failures (g x (w\<lparr>failures := []\<rparr>)) = [] then w
            else w\<lparr>failures := addFailure F (failures w)\<rparr>)"
  using assms
proof (induction xs arbitrary: w)
  case Nil
  show ?case by simp
next
  case (Cons x xs)
  define w1 where "w1 = g x w"
  have rx: "reportsOnly F (g x)" using Cons.prems by simp
  have rest: "\<forall>y \<in> set xs. reportsOnly F (g y)" using Cons.prems by simp
  have ih: "fold g xs w1 =
      (if \<forall>y \<in> set xs. failures (g y (w1\<lparr>failures := []\<rparr>)) = [] then w1
       else w1\<lparr>failures := addFailure F (failures w1)\<rparr>)"
    using rest by (rule Cons.IH)
  have fx: "w1 = (if failures (g x (w\<lparr>failures := []\<rparr>)) = [] then w
                  else w\<lparr>failures := addFailure F (failures w)\<rparr>)"
    unfolding w1_def using rx by (rule reportsOnlyD)
  show ?case
  proof (cases "failures (g x (w\<lparr>failures := []\<rparr>)) = []")
    case True
    then have "w1 = w" using fx by simp
    then show ?thesis using ih True by (simp add: w1_def)
  next
    case False
    then have w1: "w1 = w\<lparr>failures := addFailure F (failures w)\<rparr>" using fx by simp
    then have "fold g xs w1 = w1" using ih by (simp add: addFailure_idem)
    then show ?thesis using False w1 by (simp add: w1_def)
  qed
qed

lemma reportsOnly_fold:
  assumes "\<forall>x \<in> set xs. reportsOnly F (g x)"
  shows "reportsOnly F (fold g xs)"
proof -
  have "fold g xs w =
      (if failures (fold g xs (w\<lparr>failures := []\<rparr>)) = [] then w
       else w\<lparr>failures := addFailure F (failures w)\<rparr>)" for w
  proof -
    have 1: "failures (fold g xs (w\<lparr>failures := []\<rparr>)) = [] \<longleftrightarrow>
        (\<forall>x \<in> set xs. failures (g x (w\<lparr>failures := []\<rparr>)) = [])"
      using reportsOnly_fold_eq [OF assms, of "w\<lparr>failures := []\<rparr>"]
      by (simp add: addFailure_def)
    show ?thesis
      unfolding 1 by (rule reportsOnly_fold_eq [OF assms])
  qed
  then show ?thesis unfolding reportsOnly_def by blast
qed

lemma reportsOnly_no_report_iff:
  assumes "reportsOnly F g"
  shows "failures (g w) = failures w \<longleftrightarrow>
           failures (g (w\<lparr>failures := []\<rparr>)) = [] \<or> F \<in> set (failures w)"
proof -
  have "failures (g w) =
      failures (if failures (g (w\<lparr>failures := []\<rparr>)) = [] then w
                else w\<lparr>failures := addFailure F (failures w)\<rparr>)"
    using reportsOnlyD [OF assms] by (rule arg_cong)
  then show ?thesis by (simp add: addFailure_same_iff)
qed

lemma validateExpression_None: "validateExpression None p w = w"
  by (simp add: validateExpression.simps)

lemma validateExpression_Array:
  "kind i = ArrayLiteralExpression \<Longrightarrow>
   validateExpression (Some i) p w = fold (\<lambda>e. validateExpression (Some e) p) (elements i) w"
  by (simp add: validateExpression.simps isConstant_def)

lemma validateExpression_TypeAssertion:
  "kind i = TypeAssertionExpression \<Longrightarrow>
   validateExpression (Some i) p w = validateExpression (Some (expression i)) p w"
  by (simp add: validateExpression.simps isConstant_def)

lemma validateExpression_Object:
  "kind i = ObjectLiteralExpression \<Longrightarrow>
   validateExpression (Some i) p w =
     fold (\<lambda>element w'. if kind element = PropertyAssignment
                         then validateExpression (initializer element) p w' else w')
          (properties i) w"
  by (simp add: validateExpression.simps isConstant_def)

lemma validateExpression_leaf:
  "kind i \<noteq> ArrayLiteralExpression \<Longrightarrow> kind i \<noteq> TypeAssertionExpression \<Longrightarrow>
   kind i \<noteq> ObjectLiteralExpression \<Longrightarrow>
   validateExpression (Some i) p w = w \<or>
   validateExpression (Some i) p w =
     w\<lparr>failures := addFailure
         (createFailure (nodeStart p) (nodeWidth p) (FAILURE_STRING_mocha @ trimTo (getText p) 30))
         (failures w)\<rparr>"
  by (simp add: validateExpression.simps)

lemma validateExpression_leaf_frame:
  "kind i \<noteq> ArrayLiteralExpression \<Longrightarrow> kind i \<noteq> TypeAssertionExpression \<Longrightarrow>
   kind i \<noteq> ObjectLiteralExpression \<Longrightarrow>
   validateExpression (Some i) p w =
     (if failures (validateExpression (Some i) p (w\<lparr>failures := []\<rparr>)) = [] then w
      else w\<lparr>failures := addFailure (mochaFailure p) (failures w)\<rparr>)"
  by (simp add: validateExpression.simps mochaFailure_def) (simp add: addFailure_def)

lemma reportsOnly_validateExpression:
  "reportsOnly (mochaFailure p) (validateExpression ini p)"
proof (rule validateExpression.induct
    [where P = "\<lambda>ini p w. reportsOnly (mochaFailure p) (validateExpression ini p)"
       and ?a2.0 = undefined])
  fix ini :: "node option" and parentNode :: node and w :: walker
  assume arr: "\<And>x2 x xa. \<lbrakk>ini = Some x2; \<not> isConstant x2;
         \<not> (kind x2 = FunctionExpression \<or> kind x2 = ArrowFunction);
         kind x2 = ArrayLiteralExpression; x \<in> set (elements x2)\<rbrakk>
        \<Longrightarrow> reportsOnly (mochaFailure parentNode) (validateExpression (Some x) parentNode)"
  assume asrt: "\<And>x2. \<lbrakk>ini = Some x2; \<not> isConstant x2;
           \<not> (kind x2 = FunctionExpression \<or> kind x2 = ArrowFunction);
           kind x2 \<noteq> ArrayLiteralExpression; kind x2 \<noteq> FirstTemplateToken;
           kind x2 = TypeAssertionExpression\<rbrakk>
          \<Longrightarrow> reportsOnly (mochaFailure parentNode)
                (validateExpression (Some (expression x2)) parentNode)"
  assume obj: "\<And>x2 x xa. \<lbrakk>ini = Some x2; \<not> isConstant x2;
         \<not> (kind x2 = FunctionExpression \<or> kind x2 = ArrowFunction);
         kind x2 \<noteq> ArrayLiteralExpression; kind x2 \<noteq> FirstTemplateToken;
         kind x2 \<noteq> TypeAssertionExpression;
         kind x2 \<noteq> PropertyAccessExpression; kind x2 \<noteq> Identifier;
         kind x2 = ObjectLiteralExpression; x \<in> set (properties x2);
         kind x = PropertyAssignment\<rbrakk>
        \<Longrightarrow> reportsOnly (mochaFailure parentNode)
              (validateExpression (initializer x) parentNode)"
  show "reportsOnly (mochaFailure parentNode) (validateExpression ini parentNode)"
  proof (cases ini)
    case None
    have "validateExpression None parentNode = (\<lambda>w. w)"
      by (rule ext) (rule validateExpression_None)
    then show ?thesis using None by (simp add: reportsOnly_id)
  next
    case (Some i)
    consider (array) "kind i = ArrayLiteralExpression"
      | (assertion) "kind i = TypeAssertionExpression"
      | (object) "kind i = ObjectLiteralExpression"
      | (leaf) "kind i \<noteq> ArrayLiteralExpression" "kind i \<noteq> TypeAssertionExpression"
          "kind i \<noteq> ObjectLiteralExpression"
      by blast
    then show ?thesis
    proof cases
      case array
      have eq: "validateExpression (Some i) parentNode =
                  fold (\<lambda>e. validateExpression (Some e) parentNode) (elements i)"
        by (rule ext) (rule validateExpression_Array [OF array])
      have "\<forall>x \<in> set (elements i).
              reportsOnly (mochaFailure parentNode) (validateExpression (Some x) parentNode)"
        using arr [OF Some] array by (simp add: isConstant_def)
      then show ?thesis unfolding Some eq by (rule reportsOnly_fold)
    next
      case assertion
      have eq: "validateExpression (Some i) parentNode =
                  validateExpression (Some (expression i)) parentNode"
        by (rule ext) (rule validateExpression_TypeAssertion [OF assertion])
      show ?thesis unfolding Some eq
        using asrt [OF Some] assertion by (simp add: isConstant_def)
    next
      case object
      have eq: "validateExpression (Some i) parentNode =
                  fold (\<lambda>element w'. if kind element = PropertyAssignment
                         then validateExpression (initializer element) parentNode w' else w')
                       (properties i)"
        by (rule ext) (rule validateExpression_Object [OF object])
      have "\<forall>x \<in> set (properties i).
              reportsOnly (mochaFailure parentNode)
                (\<lambda>w'. if kind x = PropertyAssignment
                         then validateExpression (initializer x) parentNode w' else w')"
      proof
        fix x assume x: "x \<in> set (properties i)"
        show "reportsOnly (mochaFailure parentNode)
                (\<lambda>w'. if kind x = PropertyAssignment
                         then validateExpression (initializer x) parentNode w' else w')"
        proof (cases "kind x = PropertyAssignment")
          case True
          have "reportsOnly (mochaFailure parentNode)
                  (validateExpression (initializer x) parentNode)"
            using obj [OF Some _ _ _ _ _ _ _ object x True] object by (simp add: isConstant_def)
          then show ?thesis using True by simp
        next
          case False
          then show ?thesis by (simp add: reportsOnly_id)
        qed
      qed
      then show ?thesis unfolding Some eq by (rule reportsOnly_fold)
    next
      case leaf
      show ?thesis unfolding Some reportsOnly_def
        using validateExpression_leaf_frame [OF leaf] by blast
    qed
  qed
qed

lemma validateExpression_frame:
  "validateExpression ini p w =
     (if failures (validateExpression ini p (w\<lparr>failures := []\<rparr>)) = [] then w
      else w\<lparr>failures := addFailure (mochaFailure p) (failures w)\<rparr>)"
  using reportsOnly_validateExpression by (rule reportsOnlyD)

lemma fold_no_report_iff:
  assumes "\<forall>x \<in> set xs. reportsOnly F (g x)"
  shows "failures (fold g xs w) = failures w \<longleftrightarrow> (\<forall>x \<in> set xs. failures (g x w) = failures w)"
proof -
  have each: "failures (g x w) = failures w \<longleftrightarrow>
      failures (g x (w\<lparr>failures := []\<rparr>)) = [] \<or> F \<in> set (failures w)"
    if "x \<in> set xs" for x
  proof -
    have "reportsOnly F (g x)" using assms that by simp
    then show ?thesis by (rule reportsOnly_no_report_iff)
  qed
  have "failures (fold g xs w) = failures w \<longleftrightarrow>
      (\<forall>x \<in> set xs. failures (g x (w\<lparr>failures := []\<rparr>)) = []) \<or> F \<in> set (failures w)"
    by (auto simp: reportsOnly_fold_eq [OF assms] addFailure_same_iff)
  also have "\<dots> \<longleftrightarrow> (\<forall>x \<in> set xs. failures (g x w) = failures w)"
    using each by blast
  finally show ?thesis .
qed

lemma reportsOnly_property:
  "reportsOnly (mochaFailure p)
     (\<lambda>w'. if kind el = PropertyAssignment
            then validateExpression (initializer el) p w' else w')"
  by (cases "kind el = PropertyAssignment")
     (simp_all add: reportsOnly_validateExpression reportsOnly_id)

lemma isSafe_Array:
  "isSafe w p (ArrayLiteralExpressionNode s es) \<longleftrightarrow> (\<forall>e \<in> set es. isSafe w p e)"
proof -
  have "\<forall>e \<in> set es. reportsOnly (mochaFailure p) (validateExpression (Some e) p)"
    by (simp add: reportsOnly_validateExpression)
  then have "failures (fold (\<lambda>e. validateExpression (Some e) p) es w) = failures w \<longleftrightarrow>
      (\<forall>e \<in> set es. failures (validateExpression (Some e) p w) = failures w)"
    by (rule fold_no_report_iff)
  then show ?thesis
    unfolding isSafe_def by (simp add: validateExpression_Array)
qed

lemma isSafe_Object:
  "isSafe w p (ObjectLiteralExpressionNode s ps) \<longleftrightarrow>
     (\<forall>el \<in> set ps. \<forall>v. kind el = PropertyAssignment \<and> initializer el = Some v \<longrightarrow> isSafe w p v)"
proof -
  let ?f = "\<lambda>el w'. if kind el = PropertyAssignment
                      then validateExpression (initializer el) p w' else w'"
  have ro: "\<forall>el \<in> set ps. reportsOnly (mochaFailure p) (?f el)"
    by (simp add: reportsOnly_property)
  have el: "failures (?f el w) = failures w \<longleftrightarrow>
      (\<forall>v. kind el = PropertyAssignment \<and> initializer el = Some v \<longrightarrow> isSafe w p v)" for el
    by (cases "initializer el") (auto simp: isSafe_def validateExpression_None)
  have "isSafe w p (ObjectLiteralExpressionNode s ps) \<longleftrightarrow> failures (fold ?f ps w) = failures w"
    unfolding isSafe_def by (simp add: validateExpression_Object)
  also have "\<dots> \<longleftrightarrow> (\<forall>el \<in> set ps. failures (?f el w) = failures w)"
    using ro by (rule fold_no_report_iff)
  finally show ?thesis unfolding el .
qed

text \<open>
  C4: an array literal is safe (validating it adds no failure) if and only if every
  element is safe, and an object literal is safe if and only if the value expression of
  every property assignment is safe; so a declaration validated inside a grouping call
  whose initializer is such a literal yields no diagnostic exactly when all parts are
  safe. Object literal elements that are not property assignments (shorthand
  properties, methods, accessors) carry no value expression and are skipped.
\<close>

theorem array_and_object_literal_safety:
  "(isSafe w p (ArrayLiteralExpressionNode s es) \<longleftrightarrow> (\<forall>e \<in> set es. isSafe w p e))
   \<and> (isSafe w p (ObjectLiteralExpressionNode s' ps) \<longleftrightarrow>
        (\<forall>el \<in> set ps. \<forall>v. kind el = PropertyAssignment \<and> initializer el = Some v
            \<longrightarrow> isSafe w p v))
   \<and> (isInDescribe w \<longrightarrow>
        (failures (visitVariableDeclaration (VariableDeclarationNode sd (Some e)) w) = failures w
         \<longleftrightarrow> isSafe w (VariableDeclarationNode sd (Some e)) e))"
  by (simp add: isSafe_Array isSafe_Object) (simp add: isSafe_def visitVariableDeclaration_def)

lemma isSafe_numberFive: "isSafe w p numberFive"
  by (simp add: isSafe_def numberFive_def validateExpression.simps isConstant_def)

lemma not_isSafe_someFunctionCall: "\<not> isSafe describeWalker p someFunctionCall"
  by (simp add: isSafe_def someFunctionCall_def validateExpression.simps isConstant_def
      getText_def getFunctionTarget_def describeWalker_def addFailure_def)

theorem array_and_object_literal_safety_witness:
  "isSafe describeWalker (declarationOf safeArray) safeArray
   \<and> \<not> isSafe describeWalker (declarationOf unsafeArray) unsafeArray
   \<and> \<not> isSafe describeWalker (declarationOf unsafeObject) unsafeObject
   \<and> isInDescribe describeWalker
   \<and> failures (visitVariableDeclaration (declarationOf safeArray) describeWalker) = []
   \<and> failures (visitVariableDeclaration (declarationOf unsafeArray) describeWalker) \<noteq> []"
proof -
  note a = array_and_object_literal_safety [where w = describeWalker and p = "declarationOf safeArray"
      and s = "Span ''[5, 5]'' 11 6" and es = "[numberFive, numberFive]"
      and sd = "Span ''x = ...'' 7 30" and e = safeArray]
  note b = array_and_object_literal_safety [where w = describeWalker and p = "declarationOf unsafeArray"
      and s = "Span ''[5, someFunctionCall()]'' 11 23" and es = "[numberFive, someFunctionCall]"
      and sd = "Span ''x = ...'' 7 30" and e = unsafeArray]
  note c = array_and_object_literal_safety [where w = describeWalker and p = "declarationOf unsafeObject"
      and s' = "Span ''{a: 5, b: someFunctionCall()}'' 4 29"
      and ps = "[PropertyAssignmentNode (Span ''a: 5'' 5 4) (IdentifierNode (Span ''a'' 5 1) ''a'')
          (Some numberFive),
        PropertyAssignmentNode (Span ''b: someFunctionCall()'' 11 21)
          (IdentifierNode (Span ''b'' 11 1) ''b'') (Some someFunctionCall)]"]
  have 1: "isSafe describeWalker (declarationOf safeArray) safeArray"
    using a by (simp add: safeArray_def isSafe_numberFive)
  have 2: "\<not> isSafe describeWalker (declarationOf unsafeArray) unsafeArray"
    using b by (simp add: unsafeArray_def not_isSafe_someFunctionCall)
  have 3: "\<not> isSafe describeWalker (declarationOf unsafeObject) unsafeObject"
    using c by (simp add: unsafeObject_def not_isSafe_someFunctionCall)
  have 4: "isInDescribe describeWalker" by (simp add: describeWalker_def)
  have 5: "failures (visitVariableDeclaration (declarationOf safeArray) describeWalker) = []"
    using a 1 4 by (simp add: declarationOf_def) (simp add: describeWalker_def)
  have 6: "failures (visitVariableDeclaration (declarationOf unsafeArray) describeWalker) \<noteq> []"
    using b 2 4 by (simp add: declarationOf_def) (simp add: describeWalker_def)
  from 1 2 3 4 5 6 show ?thesis by blast
qed

lemma validateExpression_isInDescribe:
  "isInDescribe (validateExpression ini p w) = isInDescribe w"
proof -
  have "isInDescribe (validateExpression ini p w) =
      isInDescribe
        (if failures (validateExpression ini p (w\<lparr>failures := []\<rparr>)) = [] then w
         else w\<lparr>failures := addFailure (mochaFailure p) (failures w)\<rparr>)"
    using validateExpression_frame by (rule arg_cong)
  then show ?thesis by simp
qed

lemma fold_isInDescribe:
  assumes "\<And>x w. x \<in> set xs \<Longrightarrow> isInDescribe (f x w) = isInDescribe w"
  shows "isInDescribe (fold f xs w) = isInDescribe w"
  using assms by (induction xs arbitrary: w) simp_all

lemma visitCallExpression_describe:
  assumes "getFunctionName node = Some ''describe'' \<or> getText (expression node) = ''describe.skip''"
  shows "visitCallExpression node w =
           (if isInDescribe w = False
            then (fold visitNode (children node) (w\<lparr>isInDescribe := True\<rparr>))\<lparr>isInDescribe := False\<rparr>
            else fold visitNode (children node) (w\<lparr>isInDescribe := True\<rparr>))"
  using assms by (simp add: visitCallExpression.simps Let_def)

lemma visitCallExpression_other:
  assumes "getFunctionName node \<noteq> Some ''describe''"
    and "getText (expression node) \<noteq> ''describe.skip''"
  shows "visitCallExpression node w =
           (if getFunctionName node = Some ''it''
               \<or> getFunctionName node = Some ''before'' \<or> getFunctionName node = Some ''beforeEach''
               \<or> getFunctionName node = Some ''after'' \<or> getFunctionName node = Some ''afterEach''
            then w
            else if isInDescribe w then validateExpression (Some node) node w else w)"
  using assms by (simp add: visitCallExpression.simps Let_def)

lemma visit_isInDescribe:
  "isInDescribe (visitNode n w) = isInDescribe w"
  "isInDescribe (visitCallExpression n' w') = isInDescribe w'"
proof (induction n w and n' w' rule: visitNode_visitCallExpression.induct)
  case (1 node w)
  show ?case
  proof (cases "kind node = VariableDeclaration \<or> kind node = FunctionDeclaration
      \<or> kind node = ClassDeclaration")
    case True
    then show ?thesis
      by (auto simp: visitNode.simps [of node w] visitVariableDeclaration_def
          validateExpression_isInDescribe)
  next
    case False
    show ?thesis
    proof (cases "kind node = CallExpression")
      case True
      then show ?thesis using False 1(1) by (simp add: visitNode.simps [of node w])
    next
      case notcall: False
      have "isInDescribe (fold visitNode (children node) w) = isInDescribe w"
        using False notcall 1(2) by (intro fold_isInDescribe) simp
      then show ?thesis using False notcall by (simp add: visitNode.simps [of node w])
    qed
  qed
next
  case (2 node w)
  show ?case
  proof (cases "getFunctionName node = Some ''describe''
      \<or> getText (expression node) = ''describe.skip''")
    case True
    have "isInDescribe (fold visitNode (children node) (w\<lparr>isInDescribe := True\<rparr>)) =
        isInDescribe (w\<lparr>isInDescribe := True\<rparr>)"
      using True 2 by (intro fold_isInDescribe) simp
    then show ?thesis by (simp add: visitCallExpression_describe [OF True])
  next
    case False
    then show ?thesis
      by (simp add: visitCallExpression_other validateExpression_isInDescribe)
  qed
qed

lemmas traversal_defs = getFunctionName_def getFunctionTarget_def getText_def nodeStart_def
  nodeWidth_def isConstant_def visitVariableDeclaration_def addFailure_def createFailure_def
  trimTo_def FAILURE_STRING_mocha_def visitNode.simps visitCallExpression.simps
  validateExpression.simps Let_def

text \<open>
  C5: a call to a lifecycle hook (\<^verbatim>\<open>it\<close>, \<^verbatim>\<open>before\<close>, \<^verbatim>\<open>beforeEach\<close>, \<^verbatim>\<open>after\<close>, \<^verbatim>\<open>afterEach\<close>)
  is left without visiting its arguments: the walker is unchanged, so nothing inside
  the hook's body produces a diagnostic. The test for a grouping call comes first in
  the source, hence the second hypothesis; the callee of a hook call never has the
  source text \<^verbatim>\<open>describe.skip\<close>.
\<close>

theorem lifecycle_hook_not_traversed:
  assumes "getFunctionName node = Some ''it''
           \<or> getFunctionName node = Some ''before'' \<or> getFunctionName node = Some ''beforeEach''
           \<or> getFunctionName node = Some ''after'' \<or> getFunctionName node = Some ''afterEach''"
    and "getText (expression node) \<noteq> ''describe.skip''"
  shows "visitCallExpression node w = w
         \<and> (kind node = CallExpression \<longrightarrow> visitNode node w = w)"
proof -
  have nd: "getFunctionName node \<noteq> Some ''describe''"
    using assms(1) by auto
  have 1: "visitCallExpression node w = w"
    using assms(1) by (simp add: visitCallExpression_other [OF nd assms(2)])
  then show ?thesis by (simp add: visitNode.simps [of node w])
qed

theorem lifecycle_hook_not_traversed_witness:
  "getFunctionName hookCall = Some ''beforeEach''
   \<and> getText (expression hookCall) \<noteq> ''describe.skip''
   \<and> visitCallExpression hookCall describeWalker = describeWalker
   \<and> visitNode hookCall describeWalker = describeWalker
   \<and> failures (visitCallExpression describeWithHook startWalker) = []"
proof -
  have 1: "getFunctionName hookCall = Some ''beforeEach''"
    by (simp add: hookCall_def callOf_def getFunctionName_def)
  have 2: "getText (expression hookCall) \<noteq> ''describe.skip''"
    by (simp add: hookCall_def callOf_def getText_def)
  have 3: "kind hookCall = CallExpression"
    by (simp add: hookCall_def callOf_def)
  have 4: "failures (visitCallExpression describeWithHook startWalker) = []"
    by (simp add: traversal_defs describeWithHook_def hookCall_def unsafeStatement_def
        someFunctionCall_def callOf_def functionOf_def statementOf_def startWalker_def)
  from lifecycle_hook_not_traversed [of hookCall describeWalker] 1 2 3 4 show ?thesis by simp
qed

text \<open>
  C6: a grouping call traverses its children with the flag set and, on leaving, gives
  the flag the value it had on entry; while the flag is set it stays set through every
  visit, including leaving a nested grouping call; it is cleared only on leaving a
  grouping call that was entered with the flag clear, the outermost one.
\<close>

theorem describe_flag_nesting:
  "(getFunctionName node = Some ''describe'' \<or> getText (expression node) = ''describe.skip'' \<longrightarrow>
      visitCallExpression node w =
        (fold visitNode (children node) (w\<lparr>isInDescribe := True\<rparr>))\<lparr>isInDescribe := isInDescribe w\<rparr>)
   \<and> (isInDescribe w \<longrightarrow>
        isInDescribe (visitNode n w) \<and> isInDescribe (visitCallExpression n w)
        \<and> isInDescribe (fold visitNode ns w))
   \<and> (\<not> isInDescribe w \<longrightarrow> \<not> isInDescribe (visitCallExpression n w))"
proof -
  have a: "visitCallExpression node w =
        (fold visitNode (children node) (w\<lparr>isInDescribe := True\<rparr>))\<lparr>isInDescribe := isInDescribe w\<rparr>"
    if d: "getFunctionName node = Some ''describe'' \<or> getText (expression node) = ''describe.skip''"
  proof (cases "isInDescribe w")
    case False
    then show ?thesis by (simp add: visitCallExpression_describe [OF d])
  next
    case True
    define w2 where "w2 = fold visitNode (children node) (w\<lparr>isInDescribe := True\<rparr>)"
    have "isInDescribe w2 = isInDescribe (w\<lparr>isInDescribe := True\<rparr>)"
      unfolding w2_def by (intro fold_isInDescribe) (rule visit_isInDescribe(1))
    then have "w2\<lparr>isInDescribe := True\<rparr> = w2" by simp
    then show ?thesis using True by (simp add: visitCallExpression_describe [OF d] w2_def)
  qed
  have b: "isInDescribe (fold visitNode ns w) = isInDescribe w"
    by (intro fold_isInDescribe) (rule visit_isInDescribe(1))
  show ?thesis using a b by (simp add: visit_isInDescribe)
qed

theorem describe_flag_nesting_witness:
  "getFunctionName nestedDescribe = Some ''describe''
   \<and> \<not> isInDescribe startWalker
   \<and> \<not> isInDescribe (visitCallExpression nestedDescribe startWalker)
   \<and> isInDescribe describeWalker
   \<and> isInDescribe (visitCallExpression (callOf ''describe'' [functionOf []]) describeWalker)
   \<and> failures (visitCallExpression nestedDescribe startWalker) =
       [\<lparr>failureStart = 11, failureWidth = 22,
         message = ''Mocha test contains dangerous variable initialization. Move to before()/beforeEach(): x = someFunctionCall()''\<rparr>]"
proof -
  have 1: "getFunctionName nestedDescribe = Some ''describe''"
    by (simp add: nestedDescribe_def callOf_def getFunctionName_def)
  have 2: "\<not> isInDescribe startWalker" by (simp add: startWalker_def)
  have 3: "isInDescribe describeWalker" by (simp add: describeWalker_def)
  have 4: "failures (visitCallExpression nestedDescribe startWalker) =
       [\<lparr>failureStart = 11, failureWidth = 22,
         message = ''Mocha test contains dangerous variable initialization. Move to before()/beforeEach(): x = someFunctionCall()''\<rparr>]"
    by (simp add: traversal_defs nestedDescribe_def unsafeStatement_def someFunctionCall_def
        callOf_def functionOf_def statementOf_def startWalker_def)
  from describe_flag_nesting [of nestedDescribe startWalker nestedDescribe "[]"]
    describe_flag_nesting [of nestedDescribe describeWalker "callOf ''describe'' [functionOf []]" "[]"]
    1 2 3 4
  show ?thesis by simp
qed









lemma parseOptions_malformed:
  assumes "OptObject (Some pattern) \<in> set options"
    and "compile pattern = None"
  shows "\<exists>e. parseOptions compile options w = Inl e"
  using assms(1)
proof (induction options arbitrary: w)
  case Nil
  then show ?case by simp
next
  case (Cons opt options)
  show ?case
  proof (cases "opt = OptObject (Some pattern)")
    case True
    then show ?thesis using assms(2) by simp
  next
    case False
    then have "OptObject (Some pattern) \<in> set options" using Cons.prems by auto
    then have "\<And>w'. \<exists>e. parseOptions compile options w' = Inl e" by (rule Cons.IH)
    then show ?thesis
      by (auto split: option_value.splits option.splits)
  qed
qed

text \<open>
  C8: if the option list holds an object whose \<^verbatim>\<open>ignore\<close> string does not compile,
  constructing the walker fails, and the rule returns that failure and no list of
  diagnostics, whatever the source file is.
\<close>

theorem malformed_ignore_fails_at_construction:
  assumes "OptObject (Some pattern) \<in> set options"
    and "compile pattern = None"
  shows "\<exists>e. MochaNoSideEffectCodeRuleWalker compile options = Inl e
             \<and> apply_rule compile options sourceFile = Inl e"
proof -
  obtain e where "MochaNoSideEffectCodeRuleWalker compile options = Inl e"
    unfolding MochaNoSideEffectCodeRuleWalker_def
    using parseOptions_malformed [of pattern options compile, OF assms] by blast
  then show ?thesis by (simp add: apply_rule_def)
qed

theorem malformed_ignore_fails_at_construction_witness:
  "OptObject (Some ''('') \<in> set [OptScalar, OptObject (Some ''('')]
   \<and> sampleCompile ''('' = None
   \<and> apply_rule sampleCompile [OptScalar, OptObject (Some ''('')]
        (SourceFile [statementOf describeWithHook]) = Inl (SyntaxError ''('')"
proof -
  have h1: "OptObject (Some ''('') \<in> set [OptScalar, OptObject (Some ''('')]" by simp
  have h2: "sampleCompile ''('' = None" by (simp add: sampleCompile_def)
  from malformed_ignore_fails_at_construction [of "''(''" "[OptScalar, OptObject (Some ''('')]" sampleCompile
      "SourceFile [statementOf describeWithHook]", OF h1 h2]
  obtain e where e: "MochaNoSideEffectCodeRuleWalker sampleCompile [OptScalar, OptObject (Some ''('')] = Inl e"
    and a: "apply_rule sampleCompile [OptScalar, OptObject (Some ''('')]
        (SourceFile [statementOf describeWithHook]) = Inl e"
    by blast
  have "e = SyntaxError ''(''"
    using e by (simp add: MochaNoSideEffectCodeRuleWalker_def sampleCompile_def)
  then show ?thesis using h1 h2 a by simp
qed

lemma size_elements:
  "kind i = ArrayLiteralExpression \<Longrightarrow> c \<in> set (elements i) \<Longrightarrow> size c < size i"
proof -
  assume k: "kind i = ArrayLiteralExpression" and c: "c \<in> set (elements i)"
  from k obtain s es where i: "i = ArrayLiteralExpressionNode s es" by (cases i) auto
  have "size c \<le> size_list size es"
    using c i by (intro size_list_estimation' [of c]) simp_all
  then show ?thesis using i by simp
qed

lemma size_expression:
  "kind i = TypeAssertionExpression \<Longrightarrow> size (expression i) < size i"
  by (cases i) auto

lemma size_property_value:
  assumes "kind i = ObjectLiteralExpression" "el \<in> set (properties i)"
    "kind el = PropertyAssignment" "initializer el = Some v"
  shows "size v < size i"
proof -
  from assms(1) obtain s ps where i: "i = ObjectLiteralExpressionNode s ps" by (cases i) auto
  from assms(3,4) obtain s' k where el: "el = PropertyAssignmentNode s' k (Some v)"
    by (cases el) auto
  have "el \<in> set ps" using assms(2) i by simp
  moreover have "size v < size el" using el by simp
  ultimately have "size v < size_list size ps" by (rule size_list_estimation)
  then show ?thesis using i by simp
qed

lemma recursiveCalls_smaller: "c \<in> set (recursiveCalls i) \<Longrightarrow> size c < size i"
  by (auto simp: recursiveCalls_def size_elements size_expression
      split: if_splits option.splits intro: size_property_value)

lemma fold_properties:
  "fold (\<lambda>element w'. if kind element = PropertyAssignment
                       then validateExpression (initializer element) p w' else w') ps w =
   fold (\<lambda>c. validateExpression (Some c) p)
     (concat (map (\<lambda>element.
                       if kind element = PropertyAssignment
                       then (case initializer element of None \<Rightarrow> [] | Some v \<Rightarrow> [v])
                       else []) ps)) w"
  by (induction ps arbitrary: w) (auto simp: validateExpression_None split: option.splits)

lemma recursiveCalls_descendant:
  assumes "c \<in> set (recursiveCalls i)"
  shows "c \<in> set (children i) \<or> (\<exists>el \<in> set (children i). c \<in> set (children el))"
proof -
  consider (array) "kind i = ArrayLiteralExpression"
    | (assertion) "kind i = TypeAssertionExpression"
    | (object) "kind i = ObjectLiteralExpression"
    | (leaf) "kind i \<noteq> ArrayLiteralExpression" "kind i \<noteq> TypeAssertionExpression"
        "kind i \<noteq> ObjectLiteralExpression"
    by blast
  then show ?thesis
  proof cases
    case array
    then show ?thesis using assms by (cases i) (auto simp: recursiveCalls_def)
  next
    case assertion
    then show ?thesis using assms by (cases i) (auto simp: recursiveCalls_def)
  next
    case object
    then obtain s ps where i: "i = ObjectLiteralExpressionNode s ps" by (cases i) auto
    from assms i obtain el where el: "el \<in> set ps" "kind el = PropertyAssignment"
      "initializer el = Some c"
      by (auto simp: recursiveCalls_def split: if_splits option.splits)
    from el(2,3) have "c \<in> set (children el)" by (cases el) auto
    then show ?thesis using el(1) i by auto
  next
    case leaf
    then show ?thesis using assms by (simp add: recursiveCalls_def)
  qed
qed

text \<open>
  C9: \<^verbatim>\<open>validateExpression\<close> is total, and each call it makes on itself is on a child
  or grandchild of its argument, a strictly smaller tree; the relation between a
  recursive call and its caller is well-founded, so no expression causes unbounded
  recursion. \<open>recursiveCalls i\<close> lists the expressions of those calls, and the
  classifier's result is the fold of itself over that list, or one added failure when
  the list is empty.
\<close>

theorem validateExpression_recursion_decreases:
  "(\<forall>c \<in> set (recursiveCalls i).
      (c \<in> set (children i) \<or> (\<exists>el \<in> set (children i). c \<in> set (children el)))
      \<and> size c < size i)
   \<and> wf {(c, i). c \<in> set (recursiveCalls i)}
   \<and> validateExpression None p w = w
   \<and> (validateExpression (Some i) p w =
         fold (\<lambda>c. validateExpression (Some c) p) (recursiveCalls i) w
       \<or> recursiveCalls i = [] \<and>
         validateExpression (Some i) p w =
           w\<lparr>failures := addFailure
               (createFailure (nodeStart p) (nodeWidth p)
                  (FAILURE_STRING_mocha @ trimTo (getText p) 30))
               (failures w)\<rparr>)"
proof -
  have 1: "\<forall>c \<in> set (recursiveCalls i).
      (c \<in> set (children i) \<or> (\<exists>el \<in> set (children i). c \<in> set (children el)))
      \<and> size c < size i"
    using recursiveCalls_descendant recursiveCalls_smaller by blast
  have "{(c, i). c \<in> set (recursiveCalls i)} \<subseteq> measure size"
    by (auto simp: recursiveCalls_smaller)
  then have 2: "wf {(c, i). c \<in> set (recursiveCalls i)}"
    by (rule wf_subset [OF wf_measure])
  have 3: "validateExpression (Some i) p w =
         fold (\<lambda>c. validateExpression (Some c) p) (recursiveCalls i) w
       \<or> recursiveCalls i = [] \<and>
         validateExpression (Some i) p w =
           w\<lparr>failures := addFailure
               (createFailure (nodeStart p) (nodeWidth p)
                  (FAILURE_STRING_mocha @ trimTo (getText p) 30))
               (failures w)\<rparr>"
  proof -
    consider (array) "kind i = ArrayLiteralExpression"
      | (assertion) "kind i = TypeAssertionExpression"
      | (object) "kind i = ObjectLiteralExpression"
      | (leaf) "kind i \<noteq> ArrayLiteralExpression" "kind i \<noteq> TypeAssertionExpression"
          "kind i \<noteq> ObjectLiteralExpression"
      by blast
    then show ?thesis
    proof cases
      case array
      then show ?thesis by (simp add: validateExpression_Array recursiveCalls_def)
    next
      case assertion
      then show ?thesis by (simp add: validateExpression_TypeAssertion recursiveCalls_def)
    next
      case object
      then show ?thesis
        by (simp add: validateExpression_Object recursiveCalls_def fold_properties)
    next
      case leaf
      then show ?thesis
        using validateExpression_leaf [OF leaf, of p w] by (auto simp: recursiveCalls_def)
    qed
  qed
  from 1 2 3 show ?thesis by (simp add: validateExpression_None)
qed

theorem validateExpression_recursion_decreases_witness:
  "recursiveCalls unsafeObject = [numberFive, someFunctionCall]
   \<and> size numberFive < size unsafeObject \<and> size someFunctionCall < size unsafeObject
   \<and> recursiveCalls numberFive = []"
proof -
  have 1: "recursiveCalls unsafeObject = [numberFive, someFunctionCall]"
    by (simp add: recursiveCalls_def unsafeObject_def)
  have 2: "recursiveCalls numberFive = []"
    by (simp add: recursiveCalls_def numberFive_def)
  from validateExpression_recursion_decreases [of unsafeObject] 1 show ?thesis using 1 2 by simp
qed

end
